theory Spec2Isabelle
  imports
    Main
    "HOL-Library.Char_ord"
    "HOL-Library.List_Lexorder"
    "HOL-Library.Product_Lexorder"
    "HOL-Library.Multiset"
begin

section \<open>The chain database of \<^verbatim>\<open>src/api/services/chain/db.ts\<close>\<close>

text \<open>
  \<^verbatim>\<open>ChainDatabase\<close> is a Dexie database of five tables. The embedding passes the
  database as an explicit state; \<^verbatim>\<open>Date.now()\<close> is the parameter \<open>now\<close> of every
  operation that reads the clock. Timestamps are whole numbers of milliseconds or
  seconds and are modelled as \<open>int\<close>.

  The entity types are imported by the source from \<^verbatim>\<open>../../types\<close>; the records below
  hold the fields that the schema indexes and the methods read. Several entities share
  a field name (\<^verbatim>\<open>network\<close>, \<^verbatim>\<open>hash\<close>, \<^verbatim>\<open>account\<close>, \<^verbatim>\<open>blockHeight\<close>); a record field is a
  constant, so each name is kept in one record and carries a prefix (\<open>blk_\<close>, \<open>tx_\<close>,
  \<open>bal_\<close>) in the others. \<^verbatim>\<open>Migration.id\<close> is \<open>id_m\<close>.
\<close>

subsection \<open>Entities\<close>

record network =
  family :: string
  chainID :: string
  name :: string

record accountNetwork =
  account :: string
  network :: network

record eip1559Block =
  blk_hash :: string
  parentHash :: string
  blk_blockHeight :: int
  timestamp :: int
  blk_network :: network

text \<open>
  \<^verbatim>\<open>AnyEVMTransaction\<close>: the key fields, the two block-association fields that
  \<^verbatim>\<open>addOrUpdateTransaction\<close> writes, and \<open>chainSpecific\<close> for every other field
  (\<^verbatim>\<open>from\<close>, \<^verbatim>\<open>to\<close>, \<^verbatim>\<open>nonce\<close>, ...), which the methods never look into.
\<close>

record 'f anyEVMTransaction =
  hash :: string
  tx_network :: network
  blockHeight :: "int option"
  blockHash :: "string option"
  chainSpecific :: 'f

datatype data_source = Alchemy | Local

text \<open>
  \<^verbatim>\<open>type Transaction = AnyEVMTransaction & { dataSource; firstSeen }\<close>
\<close>

record 'f transaction = "'f anyEVMTransaction" +
  dataSource :: data_source
  firstSeen :: int

record fungibleAsset =
  symbol :: string

record assetAmount =
  asset :: fungibleAsset
  amount :: int

record accountBalance =
  bal_account :: string
  bal_network :: network
  assetAmount :: assetAmount
  bal_blockHeight :: int
  retrievedAt :: int

record migration =
  id_m :: int
  appliedAt :: int

datatype error = ConstraintError

subsection \<open>Dexie tables, collections and promises\<close>

text \<open>
  A table is the list of its rows in primary-key order, as the object store keeps
  them. Every primary key of the schema is inbound (a key path into the row), so a
  table operation takes the function \<open>keyOf\<close> that reads the key off a row.
\<close>

definition table_get :: "('v \<Rightarrow> 'k) \<Rightarrow> 'k \<Rightarrow> 'v list \<Rightarrow> 'v option" where
  "table_get keyOf k t = find (\<lambda>r. keyOf r = k) t"

text \<open>\<^verbatim>\<open>put\<close> replaces the row stored under the key of \<open>v\<close>, or adds \<open>v\<close>.\<close>

definition table_put :: "('v \<Rightarrow> 'k::linorder) \<Rightarrow> 'v \<Rightarrow> 'v list \<Rightarrow> 'v list" where
  "table_put keyOf v t = insort_key keyOf v (filter (\<lambda>r. keyOf r \<noteq> keyOf v) t)"

text \<open>\<^verbatim>\<open>add\<close> fails with a \<^verbatim>\<open>ConstraintError\<close> when the key is taken.\<close>

definition table_add :: "('v \<Rightarrow> 'k::linorder) \<Rightarrow> 'v \<Rightarrow> 'v list \<Rightarrow> error + 'v list" where
  "table_add keyOf v t =
     (if keyOf v \<in> keyOf ` set t then Inl ConstraintError
      else Inr (insort_key keyOf v t))"

fun table_bulkAdd :: "('v \<Rightarrow> 'k::linorder) \<Rightarrow> 'v list \<Rightarrow> 'v list \<Rightarrow> error + 'v list" where
  "table_bulkAdd keyOf [] t = Inr t"
| "table_bulkAdd keyOf (v # vs) t =
     (case table_add keyOf v t of
        Inl e \<Rightarrow> Inl e
      | Inr t' \<Rightarrow> table_bulkAdd keyOf vs t')"

definition table_clear :: "'v list \<Rightarrow> 'v list" where
  "table_clear t = []"

definition table_count :: "'v list \<Rightarrow> nat" where
  "table_count t = length t"

definition table_toArray :: "'v list \<Rightarrow> 'v list" where
  "table_toArray t = t"

text \<open>
  A collection is what a \<^verbatim>\<open>where\<close> clause selects: the selected rows in the order of
  the index (ties in primary-key order), and the direction in which they will be
  read. \<^verbatim>\<open>reverse()\<close> flips the direction, \<^verbatim>\<open>filter\<close> drops rows.
\<close>

datatype direction = Next | Prev

record 'v collection =
  rows :: "'v list"
  dir :: direction

definition where_above :: "('v \<Rightarrow> 'i::linorder) \<Rightarrow> 'i \<Rightarrow> 'v list \<Rightarrow> 'v collection" where
  "where_above idx bound t =
     \<lparr>rows = filter (\<lambda>r. bound < idx r) (sort_key idx t), dir = Next\<rparr>"

definition where_equals :: "('v \<Rightarrow> 'i::linorder) \<Rightarrow> 'i \<Rightarrow> 'v list \<Rightarrow> 'v collection" where
  "where_equals idx k t =
     \<lparr>rows = filter (\<lambda>r. idx r = k) (sort_key idx t), dir = Next\<rparr>"

definition filter_c :: "('v \<Rightarrow> bool) \<Rightarrow> 'v collection \<Rightarrow> 'v collection" where
  "filter_c p c = c\<lparr>rows := filter p (rows c)\<rparr>"

definition reverse_c :: "'v collection \<Rightarrow> 'v collection" where
  "reverse_c c = c\<lparr>dir := (case dir c of Next \<Rightarrow> Prev | Prev \<Rightarrow> Next)\<rparr>"

definition toArray :: "'v collection \<Rightarrow> 'v list" where
  "toArray c = (case dir c of Next \<Rightarrow> rows c | Prev \<Rightarrow> rev (rows c))"

text \<open>
  A promise that fulfils with a value. \<^verbatim>\<open>await\<close> gives the value. A promise object
  has no property named by an array index, so \<^verbatim>\<open>p[i]\<close> on the promise itself is
  \<^verbatim>\<open>undefined\<close> (\<open>None\<close>), whatever it fulfils with. \<^verbatim>\<open>a[i]\<close> on an array is the
  element, or \<^verbatim>\<open>undefined\<close> past its end.
\<close>

datatype 'a promise = Promise 'a

fun await :: "'a promise \<Rightarrow> 'a" where
  "await (Promise v) = v"

fun promise_index :: "'a list promise \<Rightarrow> nat \<Rightarrow> 'a option" where
  "promise_index (Promise v) i = None"

definition array_index :: "'a list \<Rightarrow> nat \<Rightarrow> 'a option" where
  "array_index a i = (if i < length a then Some (a ! i) else None)"

text \<open>
  \<^verbatim>\<open>sortBy(keyPath)\<close> reads the collection into an array and sorts it with the
  comparator \<^verbatim>\<open>aVal < bVal ? -order : aVal > bVal ? order : 0\<close>, where \<^verbatim>\<open>order\<close> is
  \<open>1\<close> for \<open>Next\<close> and \<open>-1\<close> for \<open>Prev\<close>: ascending or descending, rows with equal
  sort keys staying in the order they were read. It returns a promise of the array.
\<close>

definition sort_desc :: "('v \<Rightarrow> 'i::linorder) \<Rightarrow> 'v list \<Rightarrow> 'v list" where
  "sort_desc f xs = rev (sort_key f (rev xs))"

definition sortBy :: "('v \<Rightarrow> 'i::linorder) \<Rightarrow> 'v collection \<Rightarrow> 'v list promise" where
  "sortBy f c =
     Promise (case dir c of
                Next \<Rightarrow> sort_key f (toArray c)
              | Prev \<Rightarrow> sort_desc f (toArray c))"

text \<open>
  \<^verbatim>\<open>modify(changes)\<close> on the rows stored under one primary key. No caller changes a
  key field, so the rows keep their places.
\<close>

definition modify_equals :: "('v \<Rightarrow> 'k) \<Rightarrow> 'k \<Rightarrow> ('v \<Rightarrow> 'v) \<Rightarrow> 'v list \<Rightarrow> 'v list" where
  "modify_equals keyOf k changes t = map (\<lambda>r. if keyOf r = k then changes r else r) t"

text \<open>
  A transaction scope runs its body on the store. A request of the body that fails
  and is not caught aborts the transaction: the call rejects (\<open>Inl\<close>) and the store
  stays as it was before the scope.
\<close>

definition transaction_scope :: "('s \<Rightarrow> error + 's) \<Rightarrow> 's \<Rightarrow> error + 's" where
  "transaction_scope body s = body s"

text \<open>
  The store that readers see after a call made on the store \<open>s\<close>: the committed
  store, or \<open>s\<close> itself when the transaction aborted.
\<close>

definition store_after :: "error + 's \<Rightarrow> 's \<Rightarrow> 's" where
  "store_after outcome s = (case outcome of Inl e \<Rightarrow> s | Inr s' \<Rightarrow> s')"

subsection \<open>The database\<close>

record 'f chainDatabase =
  accountsToTrack :: "accountNetwork list"
  blocks :: "eip1559Block list"
  transactions :: "'f transaction list"
  balances :: "accountBalance list"
  migrations :: "migration list"

text \<open>
  The primary keys of the schema:
  \<^verbatim>\<open>accountsToTrack: "&[account+network.name+network.chainID],..."\<close>,
  \<^verbatim>\<open>transactions: "&[hash+network.name],..."\<close>, \<^verbatim>\<open>blocks: "&[hash+network.name],..."\<close>,
  \<^verbatim>\<open>migrations: "++id,..."\<close>; and the index \<^verbatim>\<open>[network.name+timestamp]\<close> of blocks.
\<close>

definition accountsToTrack_key :: "accountNetwork \<Rightarrow> string \<times> string \<times> string" where
  "accountsToTrack_key e = (account e, name (network e), chainID (network e))"

definition transactions_key :: "('f, 'z) anyEVMTransaction_scheme \<Rightarrow> string \<times> string" where
  "transactions_key tx = (hash tx, name (tx_network tx))"

definition blocks_key :: "eip1559Block \<Rightarrow> string \<times> string" where
  "blocks_key b = (blk_hash b, name (blk_network b))"

definition blocks_name_timestamp :: "eip1559Block \<Rightarrow> string \<times> int" where
  "blocks_name_timestamp b = (name (blk_network b), timestamp b)"

subsection \<open>Block tracker\<close>

text \<open>
  \<^verbatim>\<open>
  async getLatestBlock(network: Network): Promise<EIP1559Block> {
    return this.blocks
      .where("[network.name+timestamp]")
      .above([network.name, Date.now() - 60 * 60 * 24])
      .reverse()
      .sortBy("timestamp")[0]
  }
  \<close>
  The index \<^verbatim>\<open>[0]\<close> is applied to the promise that \<^verbatim>\<open>sortBy\<close> returns, not to the
  array it fulfils with. The result is what the \<^verbatim>\<open>async\<close> function resolves to,
  \<open>None\<close> for \<^verbatim>\<open>undefined\<close>.
\<close>

definition getLatestBlock :: "'f chainDatabase \<Rightarrow> int \<Rightarrow> network \<Rightarrow> eip1559Block option" where
  "getLatestBlock db now net =
     promise_index
       (sortBy timestamp
          (reverse_c
             (where_above blocks_name_timestamp (name net, now - 60 * 60 * 24) (blocks db))))
       0"

subsection \<open>Transaction tracker\<close>

text \<open>
  \<^verbatim>\<open>
  return (
    (await this.transactions.where("[hash+network.name]")
        .equals([txHash, network.name]).toArray())[0] || null
  )
  \<close>
  \<^verbatim>\<open>undefined\<close> and \<^verbatim>\<open>null\<close> are both \<open>None\<close>. A stored row is an object, hence truthy.
\<close>

definition getTransaction ::
  "'f chainDatabase \<Rightarrow> network \<Rightarrow> string \<Rightarrow> 'f transaction option" where
  "getTransaction db net txHash =
     array_index
       (await (Promise (toArray
          (where_equals transactions_key (txHash, name net) (transactions db)))))
       0"

text \<open>
  \<^verbatim>\<open>
  await this.transaction("rw", this.transactions, async () => {
    const key = [tx.hash, tx.network.name]
    const existingTx = await this.transactions.get(key)
    if (existingTx) {
      await this.transactions.where("[hash+network.name]").equals(key)
        .modify({ blockHeight: tx.blockHeight, blockHash: tx.blockHash })
    } else {
      await this.transactions.put({ ...tx, firstSeen: Date.now(), dataSource })
    }
  })
  \<close>
  No request of this scope can fail on a constraint: \<^verbatim>\<open>put\<close> replaces, and the only
  unique index of the table is its primary key, which \<^verbatim>\<open>modify\<close> leaves alone.
\<close>

definition addOrUpdateTransaction ::
  "'f anyEVMTransaction \<Rightarrow> data_source \<Rightarrow> int \<Rightarrow> 'f chainDatabase \<Rightarrow> 'f chainDatabase" where
  "addOrUpdateTransaction tx src now db =
     (let key = transactions_key tx in
      case table_get transactions_key key (transactions db) of
        Some existingTx \<Rightarrow>
          db\<lparr>transactions :=
               modify_equals transactions_key key
                 (\<lambda>r. r\<lparr>blockHeight := blockHeight tx, blockHash := blockHash tx\<rparr>)
                 (transactions db)\<rparr>
      | None \<Rightarrow>
          db\<lparr>transactions :=
               table_put transactions_key
                 \<lparr>hash = hash tx, tx_network = tx_network tx,
                  blockHeight = blockHeight tx, blockHash = blockHash tx,
                  chainSpecific = chainSpecific tx,
                  dataSource = src, firstSeen = now\<rparr>
                 (transactions db)\<rparr>)"

subsection \<open>Balance tracker\<close>

text \<open>
  \<^verbatim>\<open>
  const balanceCandidates = await this.balances
    .where("retrievedAt")
    .above(Date.now() - 7 * 24 * 60 * 60 * 1000)
    .filter((balance) =>
        balance.account === account &&
        balance.assetAmount.asset.symbol === asset.symbol &&
        balance.network.name === network.name)
    .reverse()
    .sortBy("retrievedAt")
  return balanceCandidates.length > 0 ? balanceCandidates[0] : null
  \<close>
\<close>

definition getLatestAccountBalance ::
  "'f chainDatabase \<Rightarrow> int \<Rightarrow> string \<Rightarrow> network \<Rightarrow> fungibleAsset \<Rightarrow> accountBalance option" where
  "getLatestAccountBalance db now acct net ast =
     (let balanceCandidates =
        await (sortBy retrievedAt
          (reverse_c
            (filter_c
               (\<lambda>balance. bal_account balance = acct \<and>
                           symbol (asset (assetAmount balance)) = symbol ast \<and>
                           name (bal_network balance) = name net)
               (where_above retrievedAt (now - 7 * 24 * 60 * 60 * 1000) (balances db)))))
      in if length balanceCandidates > 0 then array_index balanceCandidates 0 else None)"

text \<open>
  The rows that \<^verbatim>\<open>getLatestAccountBalance\<close> selects: the bound of
  \<^verbatim>\<open>.above(Date.now() - 7 * 24 * 60 * 60 * 1000)\<close>, which is strict and one-sided, and
  the three comparisons of \<^verbatim>\<open>.filter(...)\<close>.
\<close>

definition balance_selected ::
  "int \<Rightarrow> string \<Rightarrow> network \<Rightarrow> fungibleAsset \<Rightarrow> accountBalance \<Rightarrow> bool" where
  "balance_selected now acct net ast b \<longleftrightarrow>
     now - 7 * 24 * 60 * 60 * 1000 < retrievedAt b \<and>
     bal_account b = acct \<and>
     symbol (asset (assetAmount b)) = symbol ast \<and>
     name (bal_network b) = name net"

text \<open>
  The words of the specification, "\<^verbatim>\<open>retrievedAt\<close> within the last 7 days": a time
  of the seven days that end now.
\<close>

definition spec_within_last_7_days :: "int \<Rightarrow> int \<Rightarrow> bool" where
  "spec_within_last_7_days now t \<longleftrightarrow> now - 7 * 24 * 60 * 60 * 1000 < t \<and> t \<le> now"

subsection \<open>Account tracking registry\<close>

text \<open>\<^verbatim>\<open>await this.accountsToTrack.put(accountNetwork)\<close>\<close>

definition addAccountToTrack :: "accountNetwork \<Rightarrow> 'f chainDatabase \<Rightarrow> 'f chainDatabase" where
  "addAccountToTrack accountNetwork db =
     db\<lparr>accountsToTrack := table_put accountsToTrack_key accountNetwork (accountsToTrack db)\<rparr>"

text \<open>
  \<^verbatim>\<open>
  await this.transaction("rw", this.accountsToTrack, () => {
    this.accountsToTrack.clear()
    this.accountsToTrack.bulkAdd([...accountAndNetworks])
  })
  \<close>
  The argument is a \<^verbatim>\<open>Set\<close> of objects, spread into an array: its members in
  insertion order. Members are distinct as references and may agree field by field,
  so the list may repeat a value. The two requests run in the order they are issued,
  before the transaction commits. \<^verbatim>\<open>bulkAdd\<close> fails when a key is taken; nothing
  catches that, so the transaction aborts.
\<close>

definition setAccountsToTrack ::
  "accountNetwork list \<Rightarrow> 'f chainDatabase \<Rightarrow> error + 'f chainDatabase" where
  "setAccountsToTrack accountAndNetworks db =
     transaction_scope
       (\<lambda>s. case table_bulkAdd accountsToTrack_key accountAndNetworks
                   (table_clear (accountsToTrack s)) of
               Inl e \<Rightarrow> Inl e
             | Inr t \<Rightarrow> Inr (s\<lparr>accountsToTrack := t\<rparr>))
       db"

definition getAccountsToTrack :: "'f chainDatabase \<Rightarrow> accountNetwork list" where
  "getAccountsToTrack db = table_toArray (accountsToTrack db)"

subsection \<open>Bootstrap\<close>

text \<open>
  \<^verbatim>\<open>
  const db = await getDB()
  const numMigrations = await db.migrations.count()
  if (numMigrations === 0) {
    await db.transaction("rw", db.migrations, async () => {
      db.migrations.add({ id: 0, appliedAt: Date.now() })
    })
  }
  return db
  \<close>
  \<^verbatim>\<open>getDB\<close> opens a new handle on the same persistent store, which is the state here.
\<close>

definition getOrCreateDB :: "int \<Rightarrow> 'f chainDatabase \<Rightarrow> error + 'f chainDatabase" where
  "getOrCreateDB now db =
     (let numMigrations = table_count (migrations db) in
      if numMigrations = 0 then
        transaction_scope
          (\<lambda>s. case table_add id_m \<lparr>id_m = 0, appliedAt = now\<rparr> (migrations s) of
                  Inl e \<Rightarrow> Inl e
                | Inr t \<Rightarrow> Inr (s\<lparr>migrations := t\<rparr>))
          db
      else Inr db)"

text \<open>Successive calls of \<^verbatim>\<open>getOrCreateDB\<close>, one for each clock reading of the list.\<close>

fun getOrCreateDB_calls :: "int list \<Rightarrow> 'f chainDatabase \<Rightarrow> error + 'f chainDatabase" where
  "getOrCreateDB_calls [] db = Inr db"
| "getOrCreateDB_calls (now # nows) db =
     (case getOrCreateDB now db of
        Inl e \<Rightarrow> Inl e
      | Inr db' \<Rightarrow> getOrCreateDB_calls nows db')"

subsection \<open>Sample stores\<close>

text \<open>Concrete values on which the theorems below are instantiated.\<close>

definition ex_mainnet :: network where
  "ex_mainnet = \<lparr>family = ''EVM'', chainID = ''1'', name = ''mainnet''\<rparr>"

definition ex_empty :: "unit chainDatabase" where
  "ex_empty = \<lparr>accountsToTrack = [], blocks = [], transactions = [], balances = [],
               migrations = []\<rparr>"

definition ex_block :: "string \<Rightarrow> int \<Rightarrow> eip1559Block" where
  "ex_block h t = \<lparr>blk_hash = h, parentHash = ''0x0'', blk_blockHeight = 1, timestamp = t,
                   blk_network = ex_mainnet\<rparr>"

text \<open>
  Three blocks of one network, mined 300, 200 and 100 seconds before the clock reading
  \<open>1700000000000\<close> (milliseconds); block timestamps are in seconds.
\<close>

definition ex_three_blocks :: "unit chainDatabase" where
  "ex_three_blocks =
     ex_empty\<lparr>blocks := [ex_block ''0x1'' 1699999700, ex_block ''0x2'' 1699999800,
                          ex_block ''0x3'' 1699999900]\<rparr>"

definition ex_tx_pending :: "unit anyEVMTransaction" where
  "ex_tx_pending = \<lparr>hash = ''0xA'', tx_network = ex_mainnet, blockHeight = None,
                    blockHash = None, chainSpecific = ()\<rparr>"

definition ex_tx_mined :: "unit anyEVMTransaction" where
  "ex_tx_mined = \<lparr>hash = ''0xA'', tx_network = ex_mainnet, blockHeight = Some 100,
                  blockHash = Some ''0xB'', chainSpecific = ()\<rparr>"

definition ex_row_pending :: "unit transaction" where
  "ex_row_pending = \<lparr>hash = ''0xA'', tx_network = ex_mainnet, blockHeight = None,
                     blockHash = None, chainSpecific = (), dataSource = Local,
                     firstSeen = 1000\<rparr>"

definition ex_one_tx :: "unit chainDatabase" where
  "ex_one_tx = ex_empty\<lparr>transactions := [ex_row_pending]\<rparr>"

definition ex_eth :: fungibleAsset where
  "ex_eth = \<lparr>symbol = ''ETH''\<rparr>"

definition ex_balance :: "int \<Rightarrow> accountBalance" where
  "ex_balance t = \<lparr>bal_account = ''0xacc'', bal_network = ex_mainnet,
                   assetAmount = \<lparr>asset = ex_eth, amount = 5\<rparr>, bal_blockHeight = 1,
                   retrievedAt = t\<rparr>"

text \<open>
  Balances retrieved 8 days and 6 days before the clock reading \<open>1700000000000\<close>.
\<close>

definition ex_two_balances :: "unit chainDatabase" where
  "ex_two_balances =
     ex_empty\<lparr>balances := [ex_balance (1700000000000 - 8 * 24 * 60 * 60 * 1000),
                            ex_balance (1700000000000 - 6 * 24 * 60 * 60 * 1000)]\<rparr>"

definition ex_old_balance :: "unit chainDatabase" where
  "ex_old_balance =
     ex_empty\<lparr>balances := [ex_balance (1700000000000 - 8 * 24 * 60 * 60 * 1000)]\<rparr>"

text \<open>
  A balance dated one day after the clock reading \<open>1700000000000\<close>, and one retrieved
  one day before it.
\<close>

definition ex_future_balance :: "unit chainDatabase" where
  "ex_future_balance =
     ex_empty\<lparr>balances := [ex_balance (1700000000000 + 24 * 60 * 60 * 1000),
                            ex_balance (1700000000000 - 24 * 60 * 60 * 1000)]\<rparr>"

definition ex_entry :: "string \<Rightarrow> string \<Rightarrow> accountNetwork" where
  "ex_entry a f = \<lparr>account = a, network = \<lparr>family = f, chainID = ''1'', name = ''mainnet''\<rparr>\<rparr>"

definition ex_one_entry :: "unit chainDatabase" where
  "ex_one_entry = ex_empty\<lparr>accountsToTrack := [ex_entry ''0xold'' ''EVM'']\<rparr>"

section \<open>Properties\<close>

subsection \<open>Library facts about tables and sorting\<close>

lemma array_index_filter_0: "array_index (filter P xs) 0 = find P xs"
  by (induction xs) (auto simp: array_index_def)

lemma find_modify:
  assumes "\<And>r. P (g r) = P r"
  shows "find P (map (\<lambda>r. if P r then g r else r) t) = map_option g (find P t)"
  using assms by (induction t) auto

lemma find_unique:
  "v \<in> set xs \<Longrightarrow> P v \<Longrightarrow> (\<And>r. r \<in> set xs \<Longrightarrow> P r \<Longrightarrow> r = v) \<Longrightarrow> find P xs = Some v"
proof (induction xs)
  case Nil
  then show ?case by simp
next
  case (Cons a xs)
  show ?case
  proof (cases "P a")
    case True
    then have "a = v" using Cons.prems(3) [of a] by simp
    with True show ?thesis by simp
  next
    case False
    with Cons.prems(1,2) have "v \<in> set xs" by auto
    then have "find P xs = Some v"
      using Cons.prems(2) Cons.prems(3) by (intro Cons.IH) auto
    with False show ?thesis by simp
  qed
qed

lemma sort_key_Nil_iff [simp]: "sort_key f xs = [] \<longleftrightarrow> xs = []"
  by (metis set_sort set_empty)

text \<open>The last row of an ascending sort is a row of greatest sort key.\<close>

lemma last_sort_key_max:
  assumes "xs \<noteq> []"
  shows "last (sort_key f xs) \<in> set xs \<and> (\<forall>y\<in>set xs. f y \<le> f (last (sort_key f xs)))"
proof -
  let ?ys = "sort_key f xs"
  have ne: "?ys \<noteq> []" using assms by simp
  then have mem: "last ?ys \<in> set xs" by (metis last_in_set set_sort)
  have split: "?ys = butlast ?ys @ [last ?ys]" using ne by simp
  have "sorted (map f (butlast ?ys @ [last ?ys]))"
    using split sorted_sort_key [of f xs] by simp
  then have "\<forall>y\<in>set (butlast ?ys). f y \<le> f (last ?ys)"
    by (simp add: sorted_append)
  moreover have "set xs = set (butlast ?ys) \<union> {last ?ys}"
    using split by (metis set_sort set_append list.set(1) list.set(2))
  ultimately show ?thesis using mem by auto
qed

text \<open>\<open>insort_key\<close> puts a row in front of the rows that have its key.\<close>

lemma filter_key_insort_key:
  "filter (\<lambda>r. f r = f v) (insort_key f v xs) = v # filter (\<lambda>r. f r = f v) xs"
  by (induction xs) auto

lemma filter_key_table_put:
  "filter (\<lambda>r. keyOf r = keyOf v) (table_put keyOf v t) = [v]"
  by (simp add: table_put_def filter_key_insort_key)

lemma table_put_twice: "table_put keyOf v (table_put keyOf v t) = table_put keyOf v t"
  by (simp add: table_put_def filter_insort_triv)

lemma table_put_absent:
  "table_get keyOf (keyOf v) t = None \<Longrightarrow> table_put keyOf v t = insort_key keyOf v t"
  by (simp add: table_put_def table_get_def find_None_iff filter_id_conv)

lemma table_get_put: "table_get keyOf (keyOf v) (table_put keyOf v t) = Some v"
  unfolding table_get_def
proof (rule find_unique)
  show "v \<in> set (table_put keyOf v t)" by (simp add: table_put_def set_insort_key)
  show "keyOf v = keyOf v" ..
  show "r = v" if "r \<in> set (table_put keyOf v t)" "keyOf r = keyOf v" for r
    using that by (auto simp: table_put_def set_insort_key)
qed

lemma table_get_modify:
  assumes "\<And>r. keyOf (g r) = keyOf r"
  shows "table_get keyOf k (modify_equals keyOf k g t) = map_option g (table_get keyOf k t)"
  unfolding table_get_def modify_equals_def by (rule find_modify) (simp add: assms)

lemma modify_equals_twice:
  assumes "\<And>r. keyOf (g r) = keyOf r" "\<And>r. g (g r) = g r"
  shows "modify_equals keyOf k g (modify_equals keyOf k g t) = modify_equals keyOf k g t"
  using assms by (simp add: modify_equals_def)

lemma modify_equals_fixed:
  assumes "\<forall>r\<in>set t. keyOf r = k \<longrightarrow> g r = r"
  shows "modify_equals keyOf k g t = t"
  using assms by (simp add: modify_equals_def map_idI)

lemma table_bulkAdd_mset:
  "table_bulkAdd keyOf vs t = Inr t' \<Longrightarrow> mset t' = mset vs + mset t"
proof (induction vs arbitrary: t)
  case Nil
  then show ?case by simp
next
  case (Cons v vs)
  from Cons.prems obtain t1 where a: "table_add keyOf v t = Inr t1"
    and b: "table_bulkAdd keyOf vs t1 = Inr t'"
    by (auto split: sum.splits)
  from a have "mset t1 = add_mset v (mset t)"
    by (auto simp: table_add_def split: if_splits)
  with Cons.IH [OF b] show ?case by simp
qed

text \<open>\<^verbatim>\<open>bulkAdd\<close> goes through exactly when no key is taken or given twice.\<close>

lemma table_bulkAdd_Inr_iff:
  "(\<exists>t'. table_bulkAdd keyOf vs t = Inr t') \<longleftrightarrow>
     distinct (map keyOf vs) \<and> keyOf ` set vs \<inter> keyOf ` set t = {}"
proof (induction vs arbitrary: t)
  case Nil
  show ?case by simp
next
  case (Cons v vs)
  show ?case
  proof (cases "keyOf v \<in> keyOf ` set t")
    case True
    then show ?thesis by (auto simp: table_add_def)
  next
    case False
    then have a: "table_add keyOf v t = Inr (insort_key keyOf v t)"
      by (simp add: table_add_def)
    have "(\<exists>t'. table_bulkAdd keyOf (v # vs) t = Inr t') \<longleftrightarrow>
          (\<exists>t'. table_bulkAdd keyOf vs (insort_key keyOf v t) = Inr t')"
      by (simp add: a)
    also have "\<dots> \<longleftrightarrow> distinct (map keyOf vs) \<and>
          keyOf ` set vs \<inter> keyOf ` set (insort_key keyOf v t) = {}"
      by (rule Cons.IH)
    also have "\<dots> \<longleftrightarrow> distinct (map keyOf (v # vs)) \<and>
          keyOf ` set (v # vs) \<inter> keyOf ` set t = {}"
      using False by (auto simp: set_insort_key)
    finally show ?thesis .
  qed
qed

lemmas ex_defs =
  ex_mainnet_def ex_empty_def ex_block_def ex_three_blocks_def ex_tx_pending_def
  ex_tx_mined_def ex_row_pending_def ex_one_tx_def ex_eth_def ex_balance_def
  ex_two_balances_def ex_old_balance_def ex_future_balance_def ex_entry_def ex_one_entry_def

subsection \<open>Block tracker\<close>

text \<open>
  Whatever the store holds, \<^verbatim>\<open>getLatestBlock\<close> resolves to \<^verbatim>\<open>undefined\<close>: the element
  \<open>0\<close> is read off the promise, never off the sorted array.
\<close>

lemma getLatestBlock_undefined: "getLatestBlock db now net = None"
  by (simp add: getLatestBlock_def sortBy_def)

text \<open>
  C1. \<^verbatim>\<open>getLatestBlock\<close> should return, among the stored blocks of the network whose
  timestamp lies within the last 24 hours, the one with the greatest timestamp; given
  three such blocks with timestamps \<open>t1 < t2 < t3\<close> it should return the block with
  \<open>t3\<close>. The code does not: on the store \<open>ex_three_blocks\<close>, whose three blocks are
  between 100 and 300 seconds old, it resolves to \<^verbatim>\<open>undefined\<close>.
\<close>

theorem getLatestBlock_three_blocks:
  "getLatestBlock ex_three_blocks 1700000000000 ex_mainnet = None"
  by (simp add: getLatestBlock_def sortBy_def)

text \<open>
  C8. When no stored block of the network lies inside the recency window (in
  particular when no block is stored at all), \<^verbatim>\<open>getLatestBlock\<close> resolves to the empty
  result; it has no failing outcome. The window is stated for any width, which covers
  24 hours in seconds and in milliseconds as well as the \<^verbatim>\<open>60 * 60 * 24\<close> of the code.
\<close>

theorem getLatestBlock_NotFound:
  assumes "\<forall>b\<in>set (blocks db). name (blk_network b) = name net \<longrightarrow> timestamp b \<le> now - window"
  shows "getLatestBlock db now net = None"
  by (rule getLatestBlock_undefined)

theorem getLatestBlock_NotFound_witness:
  "blocks ex_empty = [] \<and> getLatestBlock ex_empty 1700000000000 ex_mainnet = None"
proof -
  have h: "\<forall>b\<in>set (blocks ex_empty).
             name (blk_network b) = name ex_mainnet \<longrightarrow> timestamp b \<le> 1700000000000 - 86400000"
    by (simp add: ex_empty_def)
  from getLatestBlock_NotFound [OF h] show ?thesis by (simp add: ex_empty_def)
qed

text \<open>
  C10. For every store and every network, also when the store holds blocks of that
  network inside the window, \<^verbatim>\<open>getLatestBlock\<close> resolves to \<^verbatim>\<open>undefined\<close>; it never
  returns a stored block header.
\<close>

theorem getLatestBlock_never_returns_block:
  "getLatestBlock db now net = None \<and> getLatestBlock db now net \<noteq> Some b"
  by (simp add: getLatestBlock_undefined)

subsection \<open>Transaction tracker\<close>

lemma getTransaction_find:
  "getTransaction db net h = find (\<lambda>r. transactions_key r = (h, name net)) (transactions db)"
  by (simp add: getTransaction_def where_equals_def toArray_def sort_key_stable
      array_index_filter_0)

lemma getTransaction_table_get:
  "getTransaction db (tx_network tx) (hash tx) =
     table_get transactions_key (transactions_key tx) (transactions db)"
  by (simp add: getTransaction_find table_get_def transactions_key_def)

lemma transactions_key_update [simp]:
  "transactions_key (r\<lparr>blockHeight := bh, blockHash := bx\<rparr>) = transactions_key r"
  by (simp add: transactions_key_def)

text \<open>
  C2. If a row is stored under the key \<open>(hash, network.name)\<close> of \<open>tx\<close>, then after
  \<^verbatim>\<open>addOrUpdateTransaction(tx, dataSource)\<close> the row stored under that key is the old
  row with \<open>blockHeight\<close> and \<open>blockHash\<close> set to those of \<open>tx\<close>, whatever they are;
  every other field, \<open>firstSeen\<close> and \<open>dataSource\<close> among them, is as before.
\<close>

theorem addOrUpdateTransaction_merge:
  assumes "getTransaction db (tx_network tx) (hash tx) = Some r"
  shows "getTransaction (addOrUpdateTransaction tx src now db) (tx_network tx) (hash tx)
         = Some (r\<lparr>blockHeight := blockHeight tx, blockHash := blockHash tx\<rparr>)"
proof -
  let ?k = "transactions_key tx"
  let ?g = "\<lambda>r::'a transaction. r\<lparr>blockHeight := blockHeight tx, blockHash := blockHash tx\<rparr>"
  from assms have found: "table_get transactions_key ?k (transactions db) = Some r"
    by (simp add: getTransaction_table_get)
  then have "transactions (addOrUpdateTransaction tx src now db)
             = modify_equals transactions_key ?k ?g (transactions db)"
    by (simp add: addOrUpdateTransaction_def)
  moreover have "table_get transactions_key ?k
                   (modify_equals transactions_key ?k ?g (transactions db))
                 = map_option ?g (table_get transactions_key ?k (transactions db))"
    by (rule table_get_modify) simp
  ultimately show ?thesis using found
    by (simp add: getTransaction_table_get)
qed

theorem addOrUpdateTransaction_merge_witness:
  "getTransaction ex_one_tx ex_mainnet ''0xA'' = Some ex_row_pending \<and>
   getTransaction (addOrUpdateTransaction ex_tx_mined Alchemy 2000 ex_one_tx) ex_mainnet ''0xA''
     = Some \<lparr>hash = ''0xA'', tx_network = ex_mainnet, blockHeight = Some 100,
             blockHash = Some ''0xB'', chainSpecific = (), dataSource = Local,
             firstSeen = 1000\<rparr>"
proof -
  have h: "getTransaction ex_one_tx (tx_network ex_tx_mined) (hash ex_tx_mined)
           = Some ex_row_pending"
    by (simp add: ex_defs getTransaction_def where_equals_def toArray_def array_index_def
        transactions_key_def)
  from addOrUpdateTransaction_merge [OF h, of Alchemy 2000] h show ?thesis
    by (simp add: ex_tx_mined_def ex_row_pending_def)
qed

text \<open>
  C3. \<^verbatim>\<open>addOrUpdateTransaction\<close> is idempotent: from any store, a second call with the
  same \<open>tx\<close> and data source, at whatever later clock reading, leaves the store as the
  first call left it.
\<close>

theorem addOrUpdateTransaction_idempotent:
  "addOrUpdateTransaction tx src now' (addOrUpdateTransaction tx src now db)
   = addOrUpdateTransaction tx src now db"
proof (cases "table_get transactions_key (transactions_key tx) (transactions db)")
  case None
  let ?row = "\<lparr>hash = hash tx, tx_network = tx_network tx,
                  blockHeight = blockHeight tx, blockHash = blockHash tx,
                  chainSpecific = chainSpecific tx,
                  dataSource = src, firstSeen = now\<rparr>"
  let ?db1 = "addOrUpdateTransaction tx src now db"
  have k: "transactions_key ?row = transactions_key tx"
    by (simp add: transactions_key_def)
  have t1: "transactions ?db1 = table_put transactions_key ?row (transactions db)"
    using None by (simp add: addOrUpdateTransaction_def)
  have g1: "table_get transactions_key (transactions_key tx) (transactions ?db1) = Some ?row"
    unfolding t1 using table_get_put [of transactions_key ?row "transactions db"]
    by (simp only: k)
  have "\<forall>r\<in>set (transactions ?db1). transactions_key r = transactions_key tx \<longrightarrow>
          r\<lparr>blockHeight := blockHeight tx, blockHash := blockHash tx\<rparr> = r"
    unfolding t1 by (auto simp: table_put_def set_insort_key k)
  then have "modify_equals transactions_key (transactions_key tx)
          (\<lambda>r. r\<lparr>blockHeight := blockHeight tx, blockHash := blockHash tx\<rparr>) (transactions ?db1)
        = transactions ?db1"
    by (rule modify_equals_fixed)
  with g1 show ?thesis
    by (simp add: addOrUpdateTransaction_def [of tx src now' ?db1])
next
  case (Some r)
  let ?g = "\<lambda>r::'a transaction. r\<lparr>blockHeight := blockHeight tx, blockHash := blockHash tx\<rparr>"
  let ?db1 = "addOrUpdateTransaction tx src now db"
  have t1: "?db1 = db\<lparr>transactions :=
                        modify_equals transactions_key (transactions_key tx) ?g (transactions db)\<rparr>"
    using Some by (simp add: addOrUpdateTransaction_def)
  have g1: "table_get transactions_key (transactions_key tx) (transactions ?db1) = Some (?g r)"
    unfolding t1 using Some by (simp add: table_get_modify)
  show ?thesis
    unfolding addOrUpdateTransaction_def [of tx src now' ?db1] Let_def g1
    unfolding t1 by (simp add: modify_equals_twice)
qed

text \<open>
  C4. If no row is stored under the key \<open>(tx.hash, tx.network.name)\<close>, then
  \<^verbatim>\<open>addOrUpdateTransaction(tx, dataSource)\<close> adds exactly one row: it has all fields of
  \<open>tx\<close>, \<open>firstSeen\<close> equal to the clock reading and \<open>dataSource\<close> as supplied; and
  \<^verbatim>\<open>getTransaction(tx.network, tx.hash)\<close> then returns that row.
\<close>

theorem addOrUpdateTransaction_insert:
  assumes "getTransaction db (tx_network tx) (hash tx) = None"
  shows "\<exists>row. anyEVMTransaction.truncate row = tx \<and> firstSeen row = now \<and>
           dataSource row = src \<and>
           mset (transactions (addOrUpdateTransaction tx src now db))
             = add_mset row (mset (transactions db)) \<and>
           getTransaction (addOrUpdateTransaction tx src now db) (tx_network tx) (hash tx)
             = Some row"
proof -
  let ?row = "\<lparr>hash = hash tx, tx_network = tx_network tx,
                  blockHeight = blockHeight tx, blockHash = blockHash tx,
                  chainSpecific = chainSpecific tx,
                  dataSource = src, firstSeen = now\<rparr>"
  have k: "transactions_key ?row = transactions_key tx"
    by (simp add: transactions_key_def)
  from assms have absent:
    "table_get transactions_key (transactions_key ?row) (transactions db) = None"
    by (simp add: getTransaction_table_get k)
  then have t1: "transactions (addOrUpdateTransaction tx src now db)
                 = table_put transactions_key ?row (transactions db)"
    by (simp add: addOrUpdateTransaction_def k)
  have "anyEVMTransaction.truncate ?row = tx"
    by (simp add: anyEVMTransaction.truncate_def)
  moreover have "mset (transactions (addOrUpdateTransaction tx src now db))
                 = add_mset ?row (mset (transactions db))"
    unfolding t1 table_put_absent [OF absent] by simp
  moreover have "getTransaction (addOrUpdateTransaction tx src now db) (tx_network tx) (hash tx)
                 = Some ?row"
    unfolding getTransaction_table_get t1
    using table_get_put [of transactions_key ?row "transactions db"]
    by (simp only: k)
  ultimately show ?thesis by (intro exI [of _ ?row]) simp
qed

theorem addOrUpdateTransaction_insert_witness:
  "getTransaction ex_empty ex_mainnet ''0xA'' = None \<and>
   (\<exists>row. anyEVMTransaction.truncate row = ex_tx_pending \<and> firstSeen row = 1000 \<and>
      dataSource row = Local \<and>
      mset (transactions (addOrUpdateTransaction ex_tx_pending Local 1000 ex_empty))
        = add_mset row (mset (transactions ex_empty)) \<and>
      getTransaction (addOrUpdateTransaction ex_tx_pending Local 1000 ex_empty) ex_mainnet ''0xA''
        = Some row)"
proof -
  have h: "getTransaction ex_empty (tx_network ex_tx_pending) (hash ex_tx_pending) = None"
    by (simp add: ex_defs getTransaction_def where_equals_def toArray_def array_index_def)
  from addOrUpdateTransaction_insert [OF h, of 1000 Local] h show ?thesis
    by (simp add: ex_tx_pending_def)
qed

subsection \<open>Balance tracker\<close>

text \<open>
  \<^verbatim>\<open>getLatestAccountBalance\<close> in closed form: the qualifying rows, sorted by
  \<open>retrievedAt\<close>; the answer is the last of them.
\<close>

lemma getLatestAccountBalance_eq:
  "getLatestAccountBalance db now acct net ast =
     (let cands = filter (balance_selected now acct net ast) (balances db)
      in if cands = [] then None else Some (last (sort_key retrievedAt cands)))"
proof -
  let ?p = "\<lambda>balance. bal_account balance = acct \<and>
                           symbol (asset (assetAmount balance)) = symbol ast \<and>
                           name (bal_network balance) = name net"
  let ?c = "now - 7 * 24 * 60 * 60 * 1000"
  let ?sel = "filter ?p (filter (\<lambda>r. ?c < retrievedAt r) (sort_key retrievedAt (balances db)))"
  let ?cands = "filter (balance_selected now acct net ast) (balances db)"
  have "?sel = sort_key retrievedAt (filter (\<lambda>b. ?c < retrievedAt b \<and> ?p b) (balances db))"
    by (simp add: filter_sort)
  also have "filter (\<lambda>b. ?c < retrievedAt b \<and> ?p b) (balances db) = ?cands"
    by (rule filter_cong) (auto simp: balance_selected_def)
  finally have sel: "?sel = sort_key retrievedAt ?cands" .
  have res: "getLatestAccountBalance db now acct net ast =
      (if ?sel = [] then None else Some (hd (rev (sort_key retrievedAt ?sel))))"
    by (simp add: getLatestAccountBalance_def sortBy_def reverse_c_def filter_c_def
        where_above_def toArray_def sort_desc_def array_index_def hd_conv_nth Let_def)
  have e: "(?sel = []) = (?cands = [])"
    unfolding sel by simp
  have "sort_key retrievedAt ?sel = sort_key retrievedAt ?cands"
    unfolding sel by (simp add: sort_key_id_if_sorted)
  then show ?thesis
    unfolding res e Let_def by (simp add: hd_rev)
qed

text \<open>
  C5, as the claim has it: the row returned is one whose \<open>retrievedAt\<close> lies within the
  last 7 days. The query bounds \<open>retrievedAt\<close> from below only. On a store with a
  matching row dated one day after now and a matching row retrieved one day before
  now, the second lies within the last 7 days and the first does not, and the first is
  returned.
\<close>

theorem getLatestAccountBalance_future_counterexample:
  "ex_balance (1700000000000 - 24 * 60 * 60 * 1000) \<in> set (balances ex_future_balance) \<and>
   spec_within_last_7_days 1700000000000
     (retrievedAt (ex_balance (1700000000000 - 24 * 60 * 60 * 1000))) \<and>
   getLatestAccountBalance ex_future_balance 1700000000000 ''0xacc'' ex_mainnet ex_eth
     = Some (ex_balance (1700000000000 + 24 * 60 * 60 * 1000)) \<and>
   \<not> spec_within_last_7_days 1700000000000
     (retrievedAt (ex_balance (1700000000000 + 24 * 60 * 60 * 1000)))"
  by (simp add: ex_defs spec_within_last_7_days_def getLatestAccountBalance_def sortBy_def
      reverse_c_def filter_c_def where_above_def toArray_def sort_desc_def array_index_def)

text \<open>
  A row that is selected and not dated after now lies within the last 7 days, and a
  matching row within the last 7 days is selected.
\<close>

lemma balance_selected_spec_window:
  "balance_selected now acct net ast b \<and> retrievedAt b \<le> now \<longleftrightarrow>
     spec_within_last_7_days now (retrievedAt b) \<and> bal_account b = acct \<and>
     symbol (asset (assetAmount b)) = symbol ast \<and> name (bal_network b) = name net"
  by (auto simp: balance_selected_def spec_within_last_7_days_def)

text \<open>
  C5, amended. \<^verbatim>\<open>getLatestAccountBalance\<close> returns \<^verbatim>\<open>null\<close> exactly when no stored
  row is selected, that is, has \<open>retrievedAt\<close> later than seven days before now (with no
  upper bound: a row dated after now is selected) and matches the account, the asset
  symbol and the network name. Otherwise it returns a stored selected row whose
  \<open>retrievedAt\<close> is greatest among the selected rows. A row retrieved 8 days before now
  is not selected and is never returned; a stored matching row retrieved 6 days before
  now is selected, so a row at least as recent is returned.
\<close>

theorem getLatestAccountBalance_latest_fresh:
  "(getLatestAccountBalance db now acct net ast = None \<longleftrightarrow>
      (\<forall>b\<in>set (balances db). \<not> balance_selected now acct net ast b)) \<and>
   (\<forall>r. getLatestAccountBalance db now acct net ast = Some r \<longrightarrow>
      r \<in> set (balances db) \<and> balance_selected now acct net ast r \<and>
      (\<forall>b\<in>set (balances db). balance_selected now acct net ast b \<longrightarrow>
         retrievedAt b \<le> retrievedAt r)) \<and>
   (\<forall>b. retrievedAt b = now - 8 * 24 * 60 * 60 * 1000 \<longrightarrow>
      \<not> balance_selected now acct net ast b \<and>
      getLatestAccountBalance db now acct net ast \<noteq> Some b) \<and>
   (\<forall>b\<in>set (balances db).
      retrievedAt b = now - 6 * 24 * 60 * 60 * 1000 \<and> bal_account b = acct \<and>
      symbol (asset (assetAmount b)) = symbol ast \<and> name (bal_network b) = name net \<longrightarrow>
      balance_selected now acct net ast b \<and>
      (\<exists>r. getLatestAccountBalance db now acct net ast = Some r \<and>
           retrievedAt b \<le> retrievedAt r))"
proof -
  let ?cands = "filter (balance_selected now acct net ast) (balances db)"
  let ?res = "getLatestAccountBalance db now acct net ast"
  have none: "?res = None \<longleftrightarrow> (\<forall>b\<in>set (balances db). \<not> balance_selected now acct net ast b)"
    by (simp add: getLatestAccountBalance_eq Let_def filter_empty_conv)
  have some: "r \<in> set (balances db) \<and> balance_selected now acct net ast r \<and>
      (\<forall>b\<in>set (balances db). balance_selected now acct net ast b \<longrightarrow>
         retrievedAt b \<le> retrievedAt r)"
    if "?res = Some r" for r
  proof -
    from that have ne: "?cands \<noteq> []" and r: "r = last (sort_key retrievedAt ?cands)"
      by (auto simp: getLatestAccountBalance_eq Let_def split: if_splits)
    from last_sort_key_max [OF ne, of retrievedAt] show ?thesis
      unfolding r [symmetric] by auto
  qed
  have old: "\<not> balance_selected now acct net ast b \<and> ?res \<noteq> Some b"
    if "retrievedAt b = now - 8 * 24 * 60 * 60 * 1000" for b
  proof -
    have "\<not> balance_selected now acct net ast b"
      using that by (simp add: balance_selected_def)
    then show ?thesis using some [of b] by blast
  qed
  have fresh: "balance_selected now acct net ast b \<and>
               (\<exists>r. ?res = Some r \<and> retrievedAt b \<le> retrievedAt r)"
    if "b \<in> set (balances db)" "retrievedAt b = now - 6 * 24 * 60 * 60 * 1000"
      "bal_account b = acct" "symbol (asset (assetAmount b)) = symbol ast"
      "name (bal_network b) = name net" for b
  proof -
    have c: "balance_selected now acct net ast b"
      using that by (simp add: balance_selected_def)
    with that(1) none have "?res \<noteq> None" by blast
    then obtain r where "?res = Some r" by blast
    with some [OF this] c that(1) show ?thesis by blast
  qed
  show ?thesis using none some old fresh by blast
qed

theorem getLatestAccountBalance_latest_fresh_witness:
  "getLatestAccountBalance ex_two_balances 1700000000000 ''0xacc'' ex_mainnet ex_eth
     = Some (ex_balance (1700000000000 - 6 * 24 * 60 * 60 * 1000)) \<and>
   getLatestAccountBalance ex_old_balance 1700000000000 ''0xacc'' ex_mainnet ex_eth = None"
proof -
  let ?now = "1700000000000 :: int"
  let ?b8 = "ex_balance (?now - 8 * 24 * 60 * 60 * 1000)"
  let ?b6 = "ex_balance (?now - 6 * 24 * 60 * 60 * 1000)"
  let ?res = "getLatestAccountBalance ex_two_balances ?now ''0xacc'' ex_mainnet ex_eth"
  note two = getLatestAccountBalance_latest_fresh
    [where db = ex_two_balances and now = ?now and acct = "''0xacc''" and net = ex_mainnet
       and ast = ex_eth]
  note one = getLatestAccountBalance_latest_fresh
    [where db = ex_old_balance and now = ?now and acct = "''0xacc''" and net = ex_mainnet
       and ast = ex_eth]
  have bs: "set (balances ex_two_balances) = {?b8, ?b6}"
    by (simp add: ex_two_balances_def ex_empty_def)
  have h8: "retrievedAt ?b8 = ?now - 8 * 24 * 60 * 60 * 1000"
    by (simp add: ex_balance_def)
  have h6: "?b6 \<in> set (balances ex_two_balances) \<and>
            retrievedAt ?b6 = ?now - 6 * 24 * 60 * 60 * 1000 \<and> bal_account ?b6 = ''0xacc'' \<and>
            symbol (asset (assetAmount ?b6)) = symbol ex_eth \<and>
            name (bal_network ?b6) = name ex_mainnet"
    by (simp add: ex_two_balances_def ex_empty_def ex_balance_def)
  from two h6 obtain r where r: "?res = Some r" by blast
  with two have "r \<in> set (balances ex_two_balances)" by blast
  moreover from two h8 r have "r \<noteq> ?b8" by blast
  ultimately have "r = ?b6" unfolding bs by blast
  with r have first: "?res = Some ?b6" by simp
  have "\<forall>b\<in>set (balances ex_old_balance).
          \<not> balance_selected ?now ''0xacc'' ex_mainnet ex_eth b"
    using one h8 by (simp add: ex_old_balance_def ex_empty_def)
  with one have "getLatestAccountBalance ex_old_balance ?now ''0xacc'' ex_mainnet ex_eth = None"
    by blast
  with first show ?thesis by simp
qed

subsection \<open>Account tracking registry\<close>

text \<open>
  \<^verbatim>\<open>setAccountsToTrack\<close> commits exactly when the entries have pairwise different
  primary keys; otherwise \<^verbatim>\<open>bulkAdd\<close> fails and the transaction aborts.
\<close>

lemma setAccountsToTrack_commits_iff:
  "(\<exists>db'. setAccountsToTrack es db = Inr db') \<longleftrightarrow> distinct (map accountsToTrack_key es)"
proof -
  have "(\<exists>db'. setAccountsToTrack es db = Inr db') \<longleftrightarrow>
        (\<exists>t'. table_bulkAdd accountsToTrack_key es [] = Inr t')"
    by (auto simp: setAccountsToTrack_def transaction_scope_def table_clear_def
        split: sum.splits)
  then show ?thesis by (simp add: table_bulkAdd_Inr_iff)
qed

lemma setAccountsToTrack_committed:
  assumes "setAccountsToTrack es db = Inr db'"
  shows "mset (getAccountsToTrack db') = mset es \<and>
         db' = db\<lparr>accountsToTrack := getAccountsToTrack db'\<rparr>"
proof -
  from assms obtain t where t: "table_bulkAdd accountsToTrack_key es [] = Inr t"
    and db': "db' = db\<lparr>accountsToTrack := t\<rparr>"
    by (auto simp: setAccountsToTrack_def transaction_scope_def table_clear_def
        split: sum.splits)
  from table_bulkAdd_mset [OF t] show ?thesis
    by (simp add: db' getAccountsToTrack_def table_toArray_def)
qed

text \<open>
  C6, as the claim has it: for every set of entries, after
  \<^verbatim>\<open>setAccountsToTrack(entries)\<close> the registry holds exactly the entries. Two entries
  that differ in the family alone are two members of a set and share the primary key
  \<open>(account, network.name, network.chainID)\<close>: \<^verbatim>\<open>bulkAdd\<close> fails on the second, the
  transaction aborts, and the registry is the previous one, with neither entry in it.
\<close>

theorem setAccountsToTrack_shared_key_counterexample:
  "ex_entry ''0xa'' ''EVM'' \<noteq> ex_entry ''0xa'' ''BTC'' \<and>
   setAccountsToTrack [ex_entry ''0xa'' ''EVM'', ex_entry ''0xa'' ''BTC''] ex_one_entry
     = Inl ConstraintError \<and>
   getAccountsToTrack
     (store_after
        (setAccountsToTrack [ex_entry ''0xa'' ''EVM'', ex_entry ''0xa'' ''BTC''] ex_one_entry)
        ex_one_entry)
     = [ex_entry ''0xold'' ''EVM''] \<and>
   ex_entry ''0xa'' ''EVM'' \<noteq> ex_entry ''0xold'' ''EVM'' \<and>
   ex_entry ''0xa'' ''BTC'' \<noteq> ex_entry ''0xold'' ''EVM''"
  by (simp add: ex_defs store_after_def getAccountsToTrack_def table_toArray_def
      setAccountsToTrack_def transaction_scope_def table_clear_def table_add_def
      accountsToTrack_key_def)

text \<open>
  C6, amended. From any registry, for entries whose primary keys
  \<open>(account, network.name, network.chainID)\<close> are pairwise different,
  \<^verbatim>\<open>setAccountsToTrack(entries)\<close> commits and \<^verbatim>\<open>getAccountsToTrack\<close> then returns
  exactly the entries, each once: nothing of the previous registry is left, and the
  other tables are untouched. For entries of which two share a primary key the call
  rejects with a constraint error and the registry stays as it was.
\<close>

theorem setAccountsToTrack_replaces_distinct_keys:
  "(distinct (map accountsToTrack_key es) \<longrightarrow>
      (\<exists>db'. setAccountsToTrack es db = Inr db' \<and>
             mset (getAccountsToTrack db') = mset es \<and>
             db' = db\<lparr>accountsToTrack := getAccountsToTrack db'\<rparr> \<and>
             store_after (setAccountsToTrack es db) db = db')) \<and>
   (\<not> distinct (map accountsToTrack_key es) \<longrightarrow>
      setAccountsToTrack es db = Inl ConstraintError \<and>
      getAccountsToTrack (store_after (setAccountsToTrack es db) db) = getAccountsToTrack db)"
proof (cases "distinct (map accountsToTrack_key es)")
  case True
  with setAccountsToTrack_commits_iff [of es db]
  obtain db' where c: "setAccountsToTrack es db = Inr db'" by blast
  from setAccountsToTrack_committed [OF c] c have
    "setAccountsToTrack es db = Inr db' \<and> mset (getAccountsToTrack db') = mset es \<and>
     db' = db\<lparr>accountsToTrack := getAccountsToTrack db'\<rparr> \<and>
     store_after (setAccountsToTrack es db) db = db'"
    by (simp add: store_after_def)
  then show ?thesis using True by blast
next
  case False
  with setAccountsToTrack_commits_iff [of es db]
  have no: "\<And>db'. setAccountsToTrack es db \<noteq> Inr db'" by blast
  have r: "setAccountsToTrack es db = Inl ConstraintError"
  proof (cases "setAccountsToTrack es db")
    case (Inl e)
    then show ?thesis by (cases e) simp
  next
    case (Inr db')
    with no [of db'] show ?thesis by blast
  qed
  then show ?thesis using False by (simp add: store_after_def)
qed

theorem setAccountsToTrack_replaces_distinct_keys_witness:
  "distinct (map accountsToTrack_key [ex_entry ''0xb'' ''EVM'', ex_entry ''0xa'' ''EVM'']) \<and>
   (\<exists>db'. setAccountsToTrack [ex_entry ''0xb'' ''EVM'', ex_entry ''0xa'' ''EVM''] ex_one_entry
            = Inr db' \<and>
          mset (getAccountsToTrack db')
            = mset [ex_entry ''0xb'' ''EVM'', ex_entry ''0xa'' ''EVM'']) \<and>
   \<not> distinct (map accountsToTrack_key [ex_entry ''0xa'' ''EVM'', ex_entry ''0xa'' ''BTC'']) \<and>
   setAccountsToTrack [ex_entry ''0xa'' ''EVM'', ex_entry ''0xa'' ''BTC''] ex_one_entry
     = Inl ConstraintError \<and>
   getAccountsToTrack
     (store_after
        (setAccountsToTrack [ex_entry ''0xa'' ''EVM'', ex_entry ''0xa'' ''BTC''] ex_one_entry)
        ex_one_entry)
     = getAccountsToTrack ex_one_entry"
proof -
  have d: "distinct (map accountsToTrack_key [ex_entry ''0xb'' ''EVM'', ex_entry ''0xa'' ''EVM''])"
    by (simp add: accountsToTrack_key_def ex_entry_def)
  have n: "\<not> distinct (map accountsToTrack_key
                          [ex_entry ''0xa'' ''EVM'', ex_entry ''0xa'' ''BTC''])"
    by (simp add: accountsToTrack_key_def ex_entry_def)
  from setAccountsToTrack_replaces_distinct_keys
         [where es = "[ex_entry ''0xb'' ''EVM'', ex_entry ''0xa'' ''EVM'']"
            and db = ex_one_entry]
       setAccountsToTrack_replaces_distinct_keys
         [where es = "[ex_entry ''0xa'' ''EVM'', ex_entry ''0xa'' ''BTC'']"
            and db = ex_one_entry]
       d n
  show ?thesis by blast
qed

text \<open>
  C7, as the claim has it: two entries that differ in any of \<open>account\<close>,
  \<open>network.family\<close>, \<open>network.chainID\<close>, \<open>network.name\<close> coexist. The primary key of the
  table is \<^verbatim>\<open>[account+network.name+network.chainID]\<close>, without the family: of two entries
  that differ in the family alone, the second replaces the first.
\<close>

theorem addAccountToTrack_family_counterexample:
  "family (network (ex_entry ''0xa'' ''EVM'')) \<noteq> family (network (ex_entry ''0xa'' ''BTC'')) \<and>
   ex_entry ''0xa'' ''EVM'' \<notin> set (getAccountsToTrack
      (addAccountToTrack (ex_entry ''0xa'' ''BTC'')
         (addAccountToTrack (ex_entry ''0xa'' ''EVM'') ex_empty)))"
  by (simp add: ex_defs getAccountsToTrack_def addAccountToTrack_def table_put_def
      table_toArray_def accountsToTrack_key_def)

text \<open>
  C7, amended. \<^verbatim>\<open>addAccountToTrack(entry)\<close> inserts or replaces the row under the
  primary key \<open>(account, network.name, network.chainID)\<close>: of two entries that agree on
  these three, added one after the other, the registry holds one row under the key,
  the second entry; two entries that differ in any of the three are both in the
  registry; and adding the same entry twice leaves the registry as adding it once.
\<close>

theorem addAccountToTrack_keyed:
  "(accountsToTrack_key e1 = accountsToTrack_key e2 \<longrightarrow>
      filter (\<lambda>r. accountsToTrack_key r = accountsToTrack_key e2)
        (getAccountsToTrack (addAccountToTrack e2 (addAccountToTrack e1 db))) = [e2]) \<and>
   (accountsToTrack_key e1 \<noteq> accountsToTrack_key e2 \<longrightarrow>
      e1 \<in> set (getAccountsToTrack (addAccountToTrack e2 (addAccountToTrack e1 db))) \<and>
      e2 \<in> set (getAccountsToTrack (addAccountToTrack e2 (addAccountToTrack e1 db)))) \<and>
   addAccountToTrack e (addAccountToTrack e db) = addAccountToTrack e db"
proof -
  have both: "accountsToTrack_key e1 \<noteq> accountsToTrack_key e2 \<Longrightarrow>
      e1 \<in> set (table_put accountsToTrack_key e2 (table_put accountsToTrack_key e1 t)) \<and>
      e2 \<in> set (table_put accountsToTrack_key e2 (table_put accountsToTrack_key e1 t))" for t
    by (auto simp: table_put_def set_insort_key)
  show ?thesis
    using both
    by (simp add: addAccountToTrack_def getAccountsToTrack_def table_toArray_def
        filter_key_table_put table_put_twice)
qed

theorem addAccountToTrack_keyed_witness:
  "accountsToTrack_key (ex_entry ''0xa'' ''EVM'') = accountsToTrack_key (ex_entry ''0xa'' ''BTC'') \<and>
   filter (\<lambda>r. accountsToTrack_key r = accountsToTrack_key (ex_entry ''0xa'' ''BTC''))
     (getAccountsToTrack (addAccountToTrack (ex_entry ''0xa'' ''BTC'')
        (addAccountToTrack (ex_entry ''0xa'' ''EVM'') ex_one_entry))) = [ex_entry ''0xa'' ''BTC''] \<and>
   accountsToTrack_key (ex_entry ''0xa'' ''EVM'') \<noteq> accountsToTrack_key (ex_entry ''0xb'' ''EVM'') \<and>
   ex_entry ''0xa'' ''EVM'' \<in> set (getAccountsToTrack (addAccountToTrack (ex_entry ''0xb'' ''EVM'')
        (addAccountToTrack (ex_entry ''0xa'' ''EVM'') ex_one_entry))) \<and>
   ex_entry ''0xb'' ''EVM'' \<in> set (getAccountsToTrack (addAccountToTrack (ex_entry ''0xb'' ''EVM'')
        (addAccountToTrack (ex_entry ''0xa'' ''EVM'') ex_one_entry)))"
proof -
  have same: "accountsToTrack_key (ex_entry ''0xa'' ''EVM'')
              = accountsToTrack_key (ex_entry ''0xa'' ''BTC'')"
    by (simp add: accountsToTrack_key_def ex_entry_def)
  have diff: "accountsToTrack_key (ex_entry ''0xa'' ''EVM'')
              \<noteq> accountsToTrack_key (ex_entry ''0xb'' ''EVM'')"
    by (simp add: accountsToTrack_key_def ex_entry_def)
  from addAccountToTrack_keyed
         [where ?e1.0 = "ex_entry ''0xa'' ''EVM''" and ?e2.0 = "ex_entry ''0xa'' ''BTC''"
            and db = ex_one_entry]
       addAccountToTrack_keyed
         [where ?e1.0 = "ex_entry ''0xa'' ''EVM''" and ?e2.0 = "ex_entry ''0xb'' ''EVM''"
            and db = ex_one_entry]
       same diff
  show ?thesis by blast
qed

subsection \<open>Bootstrap\<close>

text \<open>
  C9. On an empty migrations ledger \<^verbatim>\<open>getOrCreateDB\<close> inserts the one row
  \<open>{id: 0, appliedAt: now}\<close>; on a ledger that is not empty it inserts nothing; so any
  number of calls, at least one, from an empty ledger leave exactly the row with id 0
  that the first call inserted.
\<close>

theorem getOrCreateDB_idempotent:
  "(migrations db = [] \<longrightarrow>
      getOrCreateDB now db = Inr (db\<lparr>migrations := [\<lparr>id_m = 0, appliedAt = now\<rparr>]\<rparr>)) \<and>
   (migrations db \<noteq> [] \<longrightarrow> getOrCreateDB now db = Inr db) \<and>
   (migrations db = [] \<and> nows \<noteq> [] \<longrightarrow>
      getOrCreateDB_calls nows db
        = Inr (db\<lparr>migrations := [\<lparr>id_m = 0, appliedAt = hd nows\<rparr>]\<rparr>))"
proof -
  have first: "getOrCreateDB now db = Inr (db\<lparr>migrations := [\<lparr>id_m = 0, appliedAt = now\<rparr>]\<rparr>)"
    if "migrations db = []" for now and db :: "'a chainDatabase"
    using that
    by (simp add: getOrCreateDB_def table_count_def transaction_scope_def table_add_def)
  have later: "getOrCreateDB now db = Inr db"
    if "migrations db \<noteq> []" for now and db :: "'a chainDatabase"
    using that by (simp add: getOrCreateDB_def table_count_def)
  have calls: "getOrCreateDB_calls nows db = Inr db"
    if "migrations db \<noteq> []" for nows and db :: "'a chainDatabase"
    using that by (induction nows) (simp_all add: later)
  have "getOrCreateDB_calls nows db
          = Inr (db\<lparr>migrations := [\<lparr>id_m = 0, appliedAt = hd nows\<rparr>]\<rparr>)"
    if "migrations db = []" "nows \<noteq> []"
  proof (cases nows)
    case Nil
    with that show ?thesis by simp
  next
    case (Cons n ns)
    then show ?thesis using first [OF that(1), of n] by (simp add: calls)
  qed
  then show ?thesis using first later by blast
qed

theorem getOrCreateDB_idempotent_witness:
  "migrations ex_empty = [] \<and>
   getOrCreateDB 5 ex_empty = Inr (ex_empty\<lparr>migrations := [\<lparr>id_m = 0, appliedAt = 5\<rparr>]\<rparr>) \<and>
   getOrCreateDB 6 (ex_empty\<lparr>migrations := [\<lparr>id_m = 0, appliedAt = 5\<rparr>]\<rparr>)
     = Inr (ex_empty\<lparr>migrations := [\<lparr>id_m = 0, appliedAt = 5\<rparr>]\<rparr>) \<and>
   getOrCreateDB_calls [5, 6, 7] ex_empty
     = Inr (ex_empty\<lparr>migrations := [\<lparr>id_m = 0, appliedAt = 5\<rparr>]\<rparr>)"
proof -
  have e: "migrations ex_empty = []"
    by (simp add: ex_empty_def)
  have n: "migrations (ex_empty\<lparr>migrations := [\<lparr>id_m = 0, appliedAt = 5\<rparr>]\<rparr>) \<noteq> []"
    by simp
  from getOrCreateDB_idempotent [where db = ex_empty and now = 5 and nows = "[5, 6, 7]"]
       getOrCreateDB_idempotent
         [where db = "ex_empty\<lparr>migrations := [\<lparr>id_m = 0, appliedAt = 5\<rparr>]\<rparr>" and now = 6]
       e n
  show ?thesis by (simp del: getOrCreateDB_calls.simps)
qed

end
